theory Spec2Isabelle
  imports Complex_Main "HOL-Library.Word"
begin

unbundle bit_operations_syntax

text \<open>
  A shallow embedding of go-share, a peer-to-peer file sharing tool written in Go: package
  file (\<open>CreateManifest\<close>, \<open>GetChunk\<close>, \<open>VerifyChunk\<close>), package peer
  (\<open>handleConnection\<close>, \<open>DownloadChunk\<close>, \<open>DownloadFile\<close>) and package tracker
  (\<open>Announce\<close>, \<open>GetPeers\<close>). Files are byte lists, int64 values are integers with the
  wrap-around written out, errors and panics are values, and what the operating system,
  the network and the JSON decoder hand to the program is an input of the model.
\<close>

section \<open>Bytes, machine integers and the digest\<close>

type_synonym byte = "8 word"
type_synonym u32 = "32 word"

subsection \<open>Go's int64 arithmetic\<close>

text \<open>
  File sizes, chunk sizes and offsets are \<open>int64\<close> in the source. They are modelled as
  \<open>int\<close>, every arithmetic operation followed by the two's complement wrap-around.
  Go's \<open>/\<close> on integers truncates towards zero.
\<close>

definition MaxInt64 :: int where
  "MaxInt64 = 9223372036854775807"

definition wrap64 :: "int \<Rightarrow> int" where
  "wrap64 x = (x + 9223372036854775808) mod 18446744073709551616 - 9223372036854775808"

definition add64 :: "int \<Rightarrow> int \<Rightarrow> int" where
  "add64 a b = wrap64 (a + b)"

definition sub64 :: "int \<Rightarrow> int \<Rightarrow> int" where
  "sub64 a b = wrap64 (a - b)"

definition mul64 :: "int \<Rightarrow> int \<Rightarrow> int" where
  "mul64 a b = wrap64 (a * b)"

definition quot64 :: "int \<Rightarrow> int \<Rightarrow> int" where
  "quot64 a b = wrap64 (sgn a * sgn b * (\<bar>a\<bar> div \<bar>b\<bar>))"

subsection \<open>crypto/sha256\<close>

text \<open>
  The digest of the standard library (FIPS 180-4), on 32-bit words. The message schedule
  is kept as a sliding window of sixteen words. The round constants and the initial state
  are written in decimal: the first round constant is \<open>0x428a2f98\<close>, the first word of
  the initial state \<open>0x6a09e667\<close>.
\<close>

definition rotr :: "nat \<Rightarrow> u32 \<Rightarrow> u32" where
  "rotr n x = drop_bit n x OR push_bit (32 - n) (take_bit n x)"

definition Ch :: "u32 \<Rightarrow> u32 \<Rightarrow> u32 \<Rightarrow> u32" where
  "Ch x y z = (x AND y) XOR (NOT x AND z)"

definition Maj :: "u32 \<Rightarrow> u32 \<Rightarrow> u32 \<Rightarrow> u32" where
  "Maj x y z = (x AND y) XOR (x AND z) XOR (y AND z)"

definition bsig0 :: "u32 \<Rightarrow> u32" where
  "bsig0 x = rotr 2 x XOR rotr 13 x XOR rotr 22 x"

definition bsig1 :: "u32 \<Rightarrow> u32" where
  "bsig1 x = rotr 6 x XOR rotr 11 x XOR rotr 25 x"

definition ssig0 :: "u32 \<Rightarrow> u32" where
  "ssig0 x = rotr 7 x XOR rotr 18 x XOR drop_bit 3 x"

definition ssig1 :: "u32 \<Rightarrow> u32" where
  "ssig1 x = rotr 17 x XOR rotr 19 x XOR drop_bit 10 x"

definition K256 :: "u32 list" where
  "K256 =
    [1116352408, 1899447441, 3049323471, 3921009573, 961987163, 1508970993,
     2453635748, 2870763221, 3624381080, 310598401, 607225278, 1426881987,
     1925078388, 2162078206, 2614888103, 3248222580, 3835390401, 4022224774,
     264347078, 604807628, 770255983, 1249150122, 1555081692, 1996064986,
     2554220882, 2821834349, 2952996808, 3210313671, 3336571891, 3584528711,
     113926993, 338241895, 666307205, 773529912, 1294757372, 1396182291,
     1695183700, 1986661051, 2177026350, 2456956037, 2730485921, 2820302411,
     3259730800, 3345764771, 3516065817, 3600352804, 4094571909, 275423344,
     430227734, 506948616, 659060556, 883997877, 958139571, 1322822218,
     1537002063, 1747873779, 1955562222, 2024104815, 2227730452, 2361852424,
     2428436474, 2756734187, 3204031479, 3329325298]"

definition H256 :: "u32 list" where
  "H256 =
    [1779033703, 3144134277, 1013904242, 2773480762, 1359893119, 2600822924,
     528734635, 1541459225]"

fun be32 :: "byte list \<Rightarrow> u32 list" where
  "be32 (a # b # c # d # r) =
     (push_bit 24 (ucast a) OR push_bit 16 (ucast b) OR push_bit 8 (ucast c) OR ucast d) # be32 r"
| "be32 r = []"

definition pad :: "byte list \<Rightarrow> byte list" where
  "pad m = m @ [0x80] @ replicate ((119 - length m mod 64) mod 64) 0 @
     map (\<lambda>i. ucast (drop_bit (8 * (7 - i)) (of_nat (8 * length m) :: 64 word))) [0..<8]"

fun blocks :: "nat \<Rightarrow> u32 list \<Rightarrow> u32 list list" where
  "blocks 0 ws = []"
| "blocks (Suc n) ws = take 16 ws # blocks n (drop 16 ws)"

fun round_step :: "u32 \<Rightarrow> u32 \<Rightarrow> u32 list \<Rightarrow> u32 list" where
  "round_step k w0 [a, b, c, d, e, f, g, h] =
     [(h + bsig1 e + Ch e f g + k + w0) + (bsig0 a + Maj a b c), a, b, c,
      d + (h + bsig1 e + Ch e f g + k + w0), e, f, g]"
| "round_step k w0 s = s"

fun next_w :: "u32 list \<Rightarrow> u32 list" where
  "next_w (w0 # w1 # w2 # w3 # w4 # w5 # w6 # w7 # w8 # w9 # w10 # w11 # w12 # w13 # w14 # w15 # r) =
     [w1, w2, w3, w4, w5, w6, w7, w8, w9, w10, w11, w12, w13, w14, w15,
      ssig1 w14 + w9 + ssig0 w1 + w0]"
| "next_w w = w"

fun rounds :: "u32 list \<Rightarrow> u32 list \<Rightarrow> u32 list \<Rightarrow> u32 list" where
  "rounds [] w s = s"
| "rounds (k # ks) w s = rounds ks (next_w w) (round_step k (hd w) s)"

definition compress :: "u32 list \<Rightarrow> u32 list \<Rightarrow> u32 list" where
  "compress s w = map2 (+) s (rounds K256 w s)"

definition be_bytes :: "u32 \<Rightarrow> byte list" where
  "be_bytes x = [ucast (drop_bit 24 x), ucast (drop_bit 16 x), ucast (drop_bit 8 x), ucast x]"

definition Sum256 :: "byte list \<Rightarrow> byte list" where
  "Sum256 m = concat (map be_bytes
     (foldl compress H256 (blocks (length (pad m) div 64) (be32 (pad m)))))"

subsection \<open>fmt.Sprintf("%x", ...) on a byte array\<close>

definition hexdigit :: "nat \<Rightarrow> char" where
  "hexdigit n = ''0123456789abcdef'' ! n"

definition Sprintf_x :: "byte list \<Rightarrow> string" where
  "Sprintf_x bs = concat (map (\<lambda>b. [hexdigit (unat b div 16), hexdigit (unat b mod 16)]) bs)"

section \<open>Package file: manifests and chunks\<close>

record Chunk =
  Hash :: string
  Size :: int

record Manifest =
  FileName :: string
  FileSize :: int
  ChunkSize :: int
  Chunks :: "Chunk list"
  FileHash :: string

definition DefaultChunkSize :: int where
  "DefaultChunkSize = 1024 * 1024"

text \<open>
  Every error return and every run-time panic of the source is a value. The messages of
  the source are given beside the constructors.
\<close>

datatype error =
    OpenError \<comment> \<open>\<open>os.Open\<close> fails\<close>
  | SeekError \<comment> \<open>\<open>Seek\<close> to a negative offset\<close>
  | EOF \<comment> \<open>\<open>io.ReadFull\<close>: nothing left to read\<close>
  | ErrUnexpectedEOF \<comment> \<open>\<open>io.ReadFull\<close>: fewer bytes than the buffer holds\<close>
  | ConnReset \<comment> \<open>a read that fails before the stream ends\<close>
  | HashVerificationFailed \<comment> \<open>"chunk hash verification failed"\<close>
  | RangeError \<comment> \<open>the specification's error for a chunk index outside the manifest\<close>
  | PanicDivideByZero \<comment> \<open>integer divide by zero\<close>
  | PanicMakeslice \<comment> \<open>\<open>make\<close> with a negative length\<close>
  | MkdirFailed \<comment> \<open>"failed to create output directory: ..."\<close>
  | CreateFailed \<comment> \<open>"failed to create output file: ..."\<close>
  | ConnectFailed \<comment> \<open>"failed to connect to peer: ..."\<close>
  | SendFailed \<comment> \<open>"failed to send chunk request: ..."\<close>
  | ReadFailed error \<comment> \<open>"failed to read chunk data: ..."\<close>
  | WriteFailed \<comment> \<open>"failed to write chunk to file: ..."\<close>

text \<open>
  A file is its content; \<open>None\<close> stands for a path that cannot be opened. The size that
  \<open>Stat\<close> reports is the length of the content.

  The body of the loop of \<open>CreateManifest\<close> for index \<open>i\<close>. The inner \<open>chunkSize\<close>
  shadows the parameter: it is the size of the chunk, and the offset of the \<open>Seek\<close> is
  computed from it. \<open>file.WriteTo\<close> copies from the offset to the end of the file.
\<close>

definition chunk_at :: "byte list \<Rightarrow> int \<Rightarrow> int \<Rightarrow> int \<Rightarrow> error + Chunk" where
  "chunk_at file chunkSize numChunks i =
     (let chunkSize' = (if i = sub64 numChunks 1
                        then sub64 (int (length file)) (mul64 i chunkSize)
                        else chunkSize);
          offset = mul64 i chunkSize'
      in if offset < 0 then Inl SeekError
         else Inr \<lparr>Hash = Sprintf_x (Sum256 (drop (nat offset) file)), Size = chunkSize'\<rparr>)"

text \<open>
  The loop \<open>for i := int64(0); i < numChunks; i++\<close> over the slice made by
  \<open>make([]Chunk, numChunks)\<close>. The counter stays below \<open>numChunks\<close>, an int64, so the
  increment never wraps. \<open>make\<close> panics on a negative length; the limits of memory are not
  part of the model.
\<close>

function chunk_loop :: "byte list \<Rightarrow> int \<Rightarrow> int \<Rightarrow> int \<Rightarrow> Chunk list \<Rightarrow> error + Chunk list" where
  "chunk_loop file chunkSize numChunks i chunks =
     (if i < numChunks then
        (case chunk_at file chunkSize numChunks i of
           Inl e \<Rightarrow> Inl e
         | Inr chunk \<Rightarrow> chunk_loop file chunkSize numChunks (i + 1) (chunks[nat i := chunk]))
      else Inr chunks)"
  by pat_completeness auto
termination
  by (relation "measure (\<lambda>(file, chunkSize, numChunks, i, chunks). nat (numChunks - i))") auto

definition CreateManifest :: "string \<Rightarrow> byte list option \<Rightarrow> int \<Rightarrow> error + Manifest" where
  "CreateManifest name fileopt chunkSize =
     (case fileopt of
        None \<Rightarrow> Inl OpenError
      | Some file \<Rightarrow>
          if chunkSize = 0 then Inl PanicDivideByZero
          else
            let numChunks = quot64 (sub64 (add64 (int (length file)) chunkSize) 1) chunkSize
            in if numChunks < 0 then Inl PanicMakeslice
               else
                 (case chunk_loop file chunkSize numChunks 0
                         (replicate (nat numChunks) \<lparr>Hash = [], Size = 0\<rparr>) of
                    Inl e \<Rightarrow> Inl e
                  | Inr chunks \<Rightarrow>
                      Inr \<lparr>FileName = name, FileSize = int (length file),
                           ChunkSize = chunkSize, Chunks = chunks,
                           FileHash = Sprintf_x (Sum256 file)\<rparr>))"

subsection \<open>Reading and verifying a chunk\<close>

text \<open>
  A byte stream as a reader sees it: the bytes that arrive, then the end of the stream
  (\<open>Fin\<close>, an orderly end: end of file, or the peer closing the connection) or an error
  (\<open>Reset\<close>). A file is read as \<open>(bytes, Fin)\<close>.
\<close>

datatype stream_end = Fin | Reset

type_synonym stream = "byte list \<times> stream_end"

text \<open>\<open>io.ReadFull\<close> into a buffer of \<open>n\<close> bytes, and \<open>io.ReadAll\<close>.\<close>

definition ReadFull :: "stream \<Rightarrow> nat \<Rightarrow> error + byte list" where
  "ReadFull s n =
     (if n = 0 then Inr []
      else if n \<le> length (fst s) then Inr (take n (fst s))
      else if snd s = Reset then Inl ConnReset
      else if fst s = [] then Inl EOF
      else Inl ErrUnexpectedEOF)"

definition ReadAll :: "stream \<Rightarrow> error + byte list" where
  "ReadAll s = (case snd s of Fin \<Rightarrow> Inr (fst s) | Reset \<Rightarrow> Inl ConnReset)"

text \<open>The offset loop of \<open>GetChunk\<close>: one addition of the chunk's size per character of its hash.\<close>

fun offset_loop :: "nat \<Rightarrow> int \<Rightarrow> int \<Rightarrow> int" where
  "offset_loop 0 sz offset = offset"
| "offset_loop (Suc n) sz offset = offset_loop n sz (add64 offset sz)"

definition GetChunk :: "byte list option \<Rightarrow> Chunk \<Rightarrow> error + byte list" where
  "GetChunk fileopt chunk =
     (case fileopt of
        None \<Rightarrow> Inl OpenError
      | Some file \<Rightarrow>
          let offset = offset_loop (length (Hash chunk)) (Size chunk) 0
          in if offset < 0 then Inl SeekError
             else if Size chunk < 0 then Inl PanicMakeslice
             else
               (case ReadFull (drop (nat offset) file, Fin) (nat (Size chunk)) of
                  Inl e \<Rightarrow> Inl e
                | Inr data \<Rightarrow>
                    if Sprintf_x (Sum256 data) \<noteq> Hash chunk then Inl HashVerificationFailed
                    else Inr data))"

definition VerifyChunk :: "Chunk \<Rightarrow> byte list \<Rightarrow> bool" where
  "VerifyChunk chunk data = (Sprintf_x (Sum256 data) = Hash chunk)"

text \<open>
  The chunk read as the specification words it, for comparison with \<open>GetChunk\<close>: the
  offset is \<open>index * chunkSize\<close>, exactly \<open>chunk.size\<close> bytes are read there, and their
  digest is compared with \<open>chunk.hash\<close>.
\<close>

definition ReadChunk_spec :: "byte list \<Rightarrow> Manifest \<Rightarrow> nat \<Rightarrow> byte list option" where
  "ReadChunk_spec file m index =
     (let chunk = Chunks m ! index;
          data = take (nat (Size chunk)) (drop (index * nat (ChunkSize m)) file)
      in if index < length (Chunks m) \<and> length data = nat (Size chunk)
            \<and> Sprintf_x (Sum256 data) = Hash chunk
         then Some data else None)"

section \<open>Package peer: serving chunks\<close>

text \<open>What \<open>json.Decoder.Decode\<close> makes of the bytes it is given.\<close>

datatype 'a decoded = DecodeError | Decoded 'a

datatype close_reason =
    BadRequest \<comment> \<open>"Error reading chunk request"\<close>
  | ManifestFailed error \<comment> \<open>"Error creating manifest"\<close>
  | InvalidChunkIndex int \<comment> \<open>"Invalid chunk index"\<close>
  | ChunkReadFailed error \<comment> \<open>"Error reading chunk"\<close>

text \<open>
  The outcome of one connection on the serving side: the connection is closed with nothing
  written (the reason is only printed), or the chunk is written and the connection closed.
\<close>

datatype conn_result = ClosedSilently close_reason | Wrote "byte list"

text \<open>
  \<open>handleConnection\<close> calls \<open>file.GetChunk(filePath, manifest, req.ChunkIndex)\<close>, while the
  \<open>GetChunk\<close> of package file takes a path and a chunk. The callee is therefore a parameter
  of the model of \<open>handleConnection\<close>.
\<close>

type_synonym chunk_reader = "byte list option \<Rightarrow> Manifest \<Rightarrow> int \<Rightarrow> error + byte list"


definition handleConnection ::
    "chunk_reader \<Rightarrow> string \<Rightarrow> byte list option \<Rightarrow> int decoded \<Rightarrow> conn_result" where
  "handleConnection getChunk filePath fileopt req =
     (case req of
        DecodeError \<Rightarrow> ClosedSilently BadRequest
      | Decoded chunkIndex \<Rightarrow>
          (case CreateManifest filePath fileopt DefaultChunkSize of
             Inl e \<Rightarrow> ClosedSilently (ManifestFailed e)
           | Inr manifest \<Rightarrow>
               if chunkIndex < 0 \<or> chunkIndex \<ge> int (length (Chunks manifest))
               then ClosedSilently (InvalidChunkIndex chunkIndex)
               else
                 (case getChunk fileopt manifest chunkIndex of
                    Inl e \<Rightarrow> ClosedSilently (ChunkReadFailed e)
                  | Inr chunkData \<Rightarrow> Wrote chunkData)))"

text \<open>What the requester can read from a connection that \<open>handleConnection\<close> served.\<close>

definition on_the_wire :: "conn_result \<Rightarrow> stream" where
  "on_the_wire r = (case r of ClosedSilently reason \<Rightarrow> ([], Fin) | Wrote chunkData \<Rightarrow> (chunkData, Fin))"

section \<open>Package peer: downloading\<close>

text \<open>
  The world of the client: whether the directory and the output file can be created,
  whether the n-th dial and the request on the n-th connection succeed, what the peer
  sends in answer to a chunk index before the stream ends, and whether the n-th write to
  the output file succeeds.
\<close>

record env =
  mkdir_ok :: bool
  create_ok :: bool
  dial_ok :: "nat \<Rightarrow> bool"
  send_ok :: "nat \<Rightarrow> bool"
  reply :: "int \<Rightarrow> stream"
  write_ok :: "nat \<Rightarrow> bool"

text \<open>Connections are numbered in the order they are dialled.\<close>

datatype event = Dial nat | Request nat int | Close nat

definition DownloadChunk :: "env \<Rightarrow> int \<Rightarrow> (error + byte list) \<times> event list" where
  "DownloadChunk e chunkIndex =
     (if \<not> dial_ok e 0 then (Inl ConnectFailed, [])
      else if \<not> send_ok e 0 then (Inl SendFailed, [Dial 0, Close 0])
      else
        (case ReadAll (reply e chunkIndex) of
           Inl er \<Rightarrow> (Inl (ReadFailed er), [Dial 0, Request 0 chunkIndex, Close 0])
         | Inr data \<Rightarrow> (Inr data, [Dial 0, Request 0 chunkIndex, Close 0])))"

text \<open>
  The state of \<open>DownloadFile\<close> while its loop runs: the content of the output file, the
  events so far, and the connections whose \<open>Close\<close> is deferred to the return of the
  function, latest first.
\<close>

record dl_state =
  out :: "byte list"
  events :: "event list"
  deferred :: "nat list"

fun download_loop :: "env \<Rightarrow> Chunk list \<Rightarrow> nat \<Rightarrow> dl_state \<Rightarrow> error option \<times> dl_state" where
  "download_loop e [] i st = (None, st)"
| "download_loop e (chunk # rest) i st =
     (if \<not> dial_ok e i then (Some ConnectFailed, st)
      else
        let st1 = st\<lparr>events := events st @ [Dial i], deferred := i # deferred st\<rparr>
        in if \<not> send_ok e i then (Some SendFailed, st1)
           else
             let st2 = st1\<lparr>events := events st1 @ [Request i (int i)]\<rparr>
             in if Size chunk < 0 then (Some PanicMakeslice, st2)
                else
                  (case ReadFull (reply e (int i)) (nat (Size chunk)) of
                     Inl er \<Rightarrow> (Some (ReadFailed er), st2)
                   | Inr chunkData \<Rightarrow>
                       if \<not> VerifyChunk chunk chunkData then (Some HashVerificationFailed, st2)
                       else if \<not> write_ok e i then (Some WriteFailed, st2)
                       else download_loop e rest (Suc i) (st2\<lparr>out := out st2 @ chunkData\<rparr>)))"

record dl_result =
  err :: "error option"
  written :: "byte list option"
  trace :: "event list"

definition DownloadFile :: "env \<Rightarrow> Manifest \<Rightarrow> dl_result" where
  "DownloadFile e manifest =
     (if \<not> mkdir_ok e then \<lparr>err = Some MkdirFailed, written = None, trace = []\<rparr>
      else if \<not> create_ok e then \<lparr>err = Some CreateFailed, written = None, trace = []\<rparr>
      else
        (case download_loop e (Chunks manifest) 0 \<lparr>out = [], events = [], deferred = []\<rparr> of
           (r, st) \<Rightarrow>
             \<lparr>err = r, written = Some (out st), trace = events st @ map Close (deferred st)\<rparr>))"

text \<open>Reading a trace: the chunk indices requested, and the largest number of connections open at once.\<close>

fun requested :: "event list \<Rightarrow> int list" where
  "requested [] = []"
| "requested (Request c i # es) = i # requested es"
| "requested (ev # es) = requested es"

fun max_open :: "nat \<Rightarrow> event list \<Rightarrow> nat" where
  "max_open n [] = n"
| "max_open n (Dial c # es) = max (Suc n) (max_open (Suc n) es)"
| "max_open n (Close c # es) = max n (max_open (n - 1) es)"
| "max_open n (Request c i # es) = max_open n es"

text \<open>One iteration of the loop goes through: the chunk arrives whole, verifies and is written.\<close>

definition chunk_arrives :: "env \<Rightarrow> Chunk \<Rightarrow> nat \<Rightarrow> byte list \<Rightarrow> bool" where
  "chunk_arrives e chunk i chunkData =
     (dial_ok e i \<and> send_ok e i \<and> 0 \<le> Size chunk
      \<and> ReadFull (reply e (int i)) (nat (Size chunk)) = Inr chunkData)"

definition chunk_passes :: "env \<Rightarrow> Chunk \<Rightarrow> nat \<Rightarrow> byte list \<Rightarrow> bool" where
  "chunk_passes e chunk i chunkData =
     (chunk_arrives e chunk i chunkData \<and> VerifyChunk chunk chunkData \<and> write_ok e i)"

fun all_pass :: "env \<Rightarrow> Chunk list \<Rightarrow> nat \<Rightarrow> byte list list \<Rightarrow> bool" where
  "all_pass e [] i [] = True"
| "all_pass e (chunk # rest) i (d # ds) = (chunk_passes e chunk i d \<and> all_pass e rest (Suc i) ds)"
| "all_pass e chunks i ds = False"

section \<open>Package tracker\<close>

record Peer =
  Address :: string
  Port :: int

record AnnounceRequest =
  req_FileHash :: string
  req_Address :: string
  req_Port :: int

text \<open>
  The registry \<open>t.peers\<close>, a Go map from file hash to a slice of peers. A key that is
  absent reads as the nil slice, here \<open>None\<close>; \<open>elems\<close> gives the elements a \<open>range\<close>
  over the slice visits.
\<close>

type_synonym registry = "string \<rightharpoonup> Peer list"

definition NewTracker :: registry where
  "NewTracker = Map.empty"

definition elems :: "'a list option \<Rightarrow> 'a list" where
  "elems s = (case s of None \<Rightarrow> [] | Some xs \<Rightarrow> xs)"

text \<open>
  An HTTP request as the handlers read it: the method, what decoding the body as an
  \<open>AnnounceRequest\<close> yields, and \<open>r.URL.Query().Get("fileHash")\<close>, empty when the
  parameter is missing.
\<close>

record request =
  Method :: string
  Body :: "AnnounceRequest decoded"
  QueryFileHash :: string

text \<open>JSON values, as \<open>encoding/json\<close> writes them: a nil slice is written as \<open>null\<close>.\<close>

datatype json = JNull | JNum int | JStr string | JArr "json list" | JObj "(string \<times> json) list"

datatype body = Empty | Text string | Json json

text \<open>
  A response: the status passed to \<open>WriteHeader\<close> if it was called, the content type, the
  body. Without a call of \<open>WriteHeader\<close> the server answers 200.
\<close>

record response =
  Status :: "nat option"
  ContentType :: "string option"
  RespBody :: body

definition StatusCode :: "response \<Rightarrow> nat" where
  "StatusCode w = (case Status w of None \<Rightarrow> 200 | Some code \<Rightarrow> code)"

definition http_Error :: "string \<Rightarrow> nat \<Rightarrow> response" where
  "http_Error msg code =
     \<lparr>Status = Some code, ContentType = Some ''text/plain; charset=utf-8'',
      RespBody = Text (msg @ [CHR 0x0A])\<rparr>"

fun known_peer :: "Peer \<Rightarrow> Peer list \<Rightarrow> bool" where
  "known_peer peer [] = False"
| "known_peer peer (p # ps) =
     (if Address p = Address peer \<and> Port p = Port peer then True else known_peer peer ps)"

definition Announce :: "registry \<Rightarrow> request \<Rightarrow> registry \<times> response" where
  "Announce t r =
     (if Method r \<noteq> ''POST'' then (t, http_Error ''Method not allowed'' 405)
      else
        (case Body r of
           DecodeError \<Rightarrow> (t, http_Error ''Invalid request'' 400)
         | Decoded req \<Rightarrow>
             let peer = \<lparr>Address = req_Address req, Port = req_Port req\<rparr>;
                 peers = t (req_FileHash req)
             in if known_peer peer (elems peers)
                then (t, \<lparr>Status = None, ContentType = None, RespBody = Empty\<rparr>)
                else (t(req_FileHash req \<mapsto> elems peers @ [peer]),
                      \<lparr>Status = Some 200, ContentType = None, RespBody = Empty\<rparr>)))"

definition encode_Peer :: "Peer \<Rightarrow> json" where
  "encode_Peer p = JObj [(''address'', JStr (Address p)), (''port'', JNum (Port p))]"

definition encode_PeersResponse :: "Peer list option \<Rightarrow> json" where
  "encode_PeersResponse peers =
     JObj [(''peers'', case peers of None \<Rightarrow> JNull | Some ps \<Rightarrow> JArr (map encode_Peer ps))]"

definition GetPeers :: "registry \<Rightarrow> request \<Rightarrow> response" where
  "GetPeers t r =
     (if Method r \<noteq> ''GET'' then http_Error ''Method not allowed'' 405
      else if QueryFileHash r = [] then http_Error ''Missing fileHash parameter'' 400
      else \<lparr>Status = None, ContentType = Some ''application/json'',
            RespBody = Json (encode_PeersResponse (t (QueryFileHash r)))\<rparr>)"

text \<open>The registry after a history of requests to \<open>/announce\<close>, from \<open>NewTracker\<close>.\<close>

definition announce_all :: "request list \<Rightarrow> registry" where
  "announce_all rs = foldl (\<lambda>t r. fst (Announce t r)) NewTracker rs"

definition announces :: "string \<Rightarrow> request \<Rightarrow> bool" where
  "announces h r =
     (Method r = ''POST'' \<and> (case Body r of DecodeError \<Rightarrow> False | Decoded req \<Rightarrow> req_FileHash req = h))"

fun announced :: "string \<Rightarrow> request list \<Rightarrow> bool" where
  "announced h [] = False"
| "announced h (r # rs) = (announces h r \<or> announced h rs)"

section \<open>The layout of a manifest\<close>

text \<open>
  For a file of \<open>len\<close> bytes and a positive chunk size: the number of chunks, and the size of
  chunk \<open>k\<close>. \<open>manifest_chunks\<close> lists the chunks that \<open>CreateManifest\<close> computes, each with
  the bytes that its digest covers; \<open>chunk_range\<close> is the byte range of chunk \<open>k\<close>.
\<close>

definition numChunks_of :: "nat \<Rightarrow> int \<Rightarrow> int" where
  "numChunks_of len cs = (int len + cs - 1) div cs"

definition size_of_chunk :: "nat \<Rightarrow> int \<Rightarrow> nat \<Rightarrow> int" where
  "size_of_chunk len cs k =
     (if int k = numChunks_of len cs - 1 then int len - int k * cs else cs)"

definition digested :: "byte list \<Rightarrow> int \<Rightarrow> nat \<Rightarrow> byte list" where
  "digested file cs k = drop (k * nat (size_of_chunk (length file) cs k)) file"

definition chunk_range :: "byte list \<Rightarrow> int \<Rightarrow> nat \<Rightarrow> byte list" where
  "chunk_range file cs k = take (nat (size_of_chunk (length file) cs k)) (drop (k * nat cs) file)"

definition manifest_chunks :: "byte list \<Rightarrow> int \<Rightarrow> Chunk list" where
  "manifest_chunks file cs =
     map (\<lambda>k. \<lparr>Hash = Sprintf_x (Sum256 (digested file cs k)),
               Size = size_of_chunk (length file) cs k\<rparr>)
         [0..<nat (numChunks_of (length file) cs)]"

section \<open>Vocabulary of the statements\<close>

text \<open>
  The events of the first \<open>n\<close> iterations of the download loop from connection \<open>i\<close> on, and
  the connections they leave to be closed, latest first.
\<close>

definition dialled :: "nat \<Rightarrow> nat \<Rightarrow> event list" where
  "dialled i n = concat (map (\<lambda>j. [Dial j, Request j (int j)]) [i..<i + n])"

definition still_open :: "nat \<Rightarrow> nat \<Rightarrow> nat list" where
  "still_open i n = rev [i..<i + n]"

text \<open>A world in which nothing fails on the client's side, and a manifest around a chunk list.\<close>

definition reliable :: "(int \<Rightarrow> stream) \<Rightarrow> env" where
  "reliable r = \<lparr>mkdir_ok = True, create_ok = True, dial_ok = (\<lambda>n. True), send_ok = (\<lambda>n. True),
                 reply = r, write_ok = (\<lambda>n. True)\<rparr>"

definition manifest_of :: "Chunk list \<Rightarrow> Manifest" where
  "manifest_of cs = \<lparr>FileName = ''f'', FileSize = sum_list (map Size cs), ChunkSize = 1,
                     Chunks = cs, FileHash = []\<rparr>"

text \<open>A well-formed POST to \<open>/announce\<close>, the peer it names, and the same request sent \<open>n\<close> times.\<close>

definition post :: "AnnounceRequest \<Rightarrow> request" where
  "post req = \<lparr>Method = ''POST'', Body = Decoded req, QueryFileHash = []\<rparr>"

definition peer_of :: "AnnounceRequest \<Rightarrow> Peer" where
  "peer_of req = \<lparr>Address = req_Address req, Port = req_Port req\<rparr>"

fun announce_times :: "nat \<Rightarrow> request \<Rightarrow> registry \<Rightarrow> registry" where
  "announce_times 0 r t = t"
| "announce_times (Suc n) r t = announce_times n r (fst (Announce t r))"

text \<open>A registry that lists no peer twice under one hash.\<close>

definition well_kept :: "registry \<Rightarrow> bool" where
  "well_kept t = (\<forall>h. distinct (elems (t h)))"

declare chunk_loop.simps [simp del]

section \<open>The digest\<close>

subsection \<open>Its length\<close>

lemma length_round_step: "length s = 8 \<Longrightarrow> length (round_step k w s) = 8"
  by (cases "(k, w, s)" rule: round_step.cases) auto

lemma length_rounds: "length s = 8 \<Longrightarrow> length (rounds ks w s) = 8"
  by (induction ks arbitrary: w s) (auto simp: length_round_step)

lemma length_compress: "length s = 8 \<Longrightarrow> length (compress s w) = 8"
  by (simp add: compress_def length_rounds)

lemma length_foldl_compress: "length s = 8 \<Longrightarrow> length (foldl compress s ws) = 8"
  by (induction ws arbitrary: s) (auto simp: length_compress)

lemma length_concat_be_bytes: "length (concat (map be_bytes xs)) = 4 * length xs"
  by (induction xs) (auto simp: be_bytes_def)

lemma length_Sum256: "length (Sum256 m) = 32"
  by (simp add: Sum256_def length_concat_be_bytes length_foldl_compress H256_def)

lemma length_Sprintf_x: "length (Sprintf_x bs) = 2 * length bs"
  by (induction bs) (auto simp: Sprintf_x_def)

lemma length_hex_digest: "length (Sprintf_x (Sum256 m)) = 64"
  by (simp add: length_Sprintf_x length_Sum256)

subsection \<open>Two digests, computed\<close>

lemma be32_pad_a: "be32 (pad [0x61]) = [1635778560, 0, 0, 0, 0, 0, 0, 0, 0, 0, 0, 0, 0, 0, 0, 8]"
  by code_simp

lemma be32_pad_ab: "be32 (pad [0x61, 0x62]) = [1633845248, 0, 0, 0, 0, 0, 0, 0, 0, 0, 0, 0, 0, 0, 0, 16]"
  by code_simp

lemma rounds_a:
  "rounds K256 [1635778560, 0, 0, 0, 0, 0, 0, 0, 0, 0, 0, 0, 0, 0, 0, 8] H256 =
     [1619892907, 246681413, 3193126465, 4107527955, 1450745209, 2037835238,
      2583469530, 1410169762]"
  by (simp add: K256_def H256_def bsig0_def bsig1_def ssig0_def ssig1_def Ch_def Maj_def rotr_def)

lemma rounds_ab:
  "rounds K256 [1633845248, 0, 0, 0, 0, 0, 0, 0, 0, 0, 0, 0, 0, 0, 0, 16] H256 =
     [2441362069, 1927581855, 1341247529, 822279815, 3814999612, 4235600577,
      964681381, 4185995498]"
  by (simp add: K256_def H256_def bsig0_def bsig1_def ssig0_def ssig1_def Ch_def Maj_def rotr_def)

lemma length_pad_short: "length (pad [x]) = 64" "length (pad [x, y]) = 64"
  by (simp_all add: pad_def)

lemma Sum256_a_state:
  "Sum256 [0x61] = concat (map be_bytes (map2 (+) H256
     [1619892907, 246681413, 3193126465, 4107527955, 1450745209, 2037835238,
      2583469530, 1410169762]))"
  by (simp add: Sum256_def length_pad_short be32_pad_a compress_def rounds_a)

lemma Sum256_ab_state:
  "Sum256 [0x61, 0x62] = concat (map be_bytes (map2 (+) H256
     [2441362069, 1927581855, 1341247529, 822279815, 3814999612, 4235600577,
      964681381, 4185995498]))"
  by (simp add: Sum256_def length_pad_short be32_pad_ab compress_def rounds_ab)

text \<open>The digests of the one-byte file \<open>a\<close> and of the two-byte file \<open>ab\<close>, as \<open>sha256sum\<close> prints them.\<close>

lemma Sum256_a:
  "Sprintf_x (Sum256 [0x61]) = ''ca978112ca1bbdcafac231b39a23dc4da786eff8147c4e72b9807785afee48bb''"
  unfolding Sum256_a_state by code_simp

lemma Sum256_ab:
  "Sprintf_x (Sum256 [0x61, 0x62]) = ''fb8e20fc2e4c3f248c60c39bd652f3c1347298bb977b8b4d5903b85055620603''"
  unfolding Sum256_ab_state by code_simp

lemma digest_ab_neq_a: "Sprintf_x (Sum256 [0x61, 0x62]) \<noteq> Sprintf_x (Sum256 [0x61])"
  by (simp add: Sum256_a Sum256_ab)

section \<open>The chunker\<close>

subsection \<open>Arithmetic of the chunk count\<close>

lemma wrap64_id: "- 9223372036854775808 \<le> x \<Longrightarrow> x \<le> MaxInt64 \<Longrightarrow> wrap64 x = x"
  by (simp add: wrap64_def MaxInt64_def)

lemma numChunks_nonneg: "0 < cs \<Longrightarrow> 0 \<le> numChunks_of len cs"
  by (simp add: numChunks_of_def pos_imp_zdiv_nonneg_iff)

lemma numChunks_le: "0 < cs \<Longrightarrow> numChunks_of len cs \<le> int len + cs - 1"
proof -
  assume "0 < cs"
  then have "(int len + cs - 1) div cs \<le> (int len + cs - 1) div 1"
    by (intro zdiv_mono2) auto
  then show ?thesis by (simp add: numChunks_of_def)
qed

lemma numChunks_upper: "0 < cs \<Longrightarrow> int len \<le> numChunks_of len cs * cs"
proof -
  assume cs: "0 < cs"
  let ?a = "int len + cs - 1"
  have "?a = ?a div cs * cs + ?a mod cs" by simp
  moreover have "?a mod cs < cs" using cs by simp
  ultimately have "?a < ?a div cs * cs + cs" by linarith
  then show ?thesis by (simp add: numChunks_of_def)
qed

lemma numChunks_lower: "0 < cs \<Longrightarrow> (numChunks_of len cs - 1) * cs < int len"
proof -
  assume cs: "0 < cs"
  let ?a = "int len + cs - 1"
  have "?a = ?a div cs * cs + ?a mod cs" by simp
  moreover have "0 \<le> ?a mod cs" using cs by simp
  ultimately have "?a div cs * cs \<le> ?a" by linarith
  then show ?thesis by (simp add: numChunks_of_def algebra_simps)
qed

lemma quot64_numChunks:
  assumes "0 < cs" "int len + cs - 1 \<le> MaxInt64"
  shows "quot64 (sub64 (add64 (int len) cs) 1) cs = numChunks_of len cs"
proof -
  have "sub64 (add64 (int len) cs) 1 = wrap64 (int len + cs - 1)"
    by (simp add: sub64_def add64_def wrap64_def mod_diff_left_eq algebra_simps)
  then have b: "sub64 (add64 (int len) cs) 1 = int len + cs - 1"
    using assms by (simp add: wrap64_id)
  have c: "sgn (int len + cs - 1) * sgn cs * (\<bar>int len + cs - 1\<bar> div \<bar>cs\<bar>) = numChunks_of len cs"
    using assms(1) by (cases "int len + cs - 1 = 0") (auto simp: numChunks_of_def sgn_if)
  show ?thesis
    unfolding b quot64_def c
    using numChunks_nonneg[OF assms(1), of len] numChunks_le[OF assms(1), of len] assms(2)
    by (intro wrap64_id) auto
qed


lemma size_of_chunk_bounds:
  assumes "0 < cs" "int k < numChunks_of len cs"
  shows "0 < size_of_chunk len cs k" "size_of_chunk len cs k \<le> cs"
    "int k * cs < int len"
proof -
  let ?n = "numChunks_of len cs"
  have "int k * cs \<le> (?n - 1) * cs"
    using assms by (intro mult_right_mono) auto
  then show lt: "int k * cs < int len"
    using numChunks_lower[OF assms(1), of len] by linarith
  show "0 < size_of_chunk len cs k"
  proof (cases "int k = ?n - 1")
    case True
    with lt show ?thesis by (simp add: size_of_chunk_def)
  next
    case False
    with assms(1) show ?thesis by (simp add: size_of_chunk_def)
  qed
  show "size_of_chunk len cs k \<le> cs"
  proof (cases "int k = ?n - 1")
    case True
    then have "?n = int k + 1" by simp
    then have "?n * cs = (int k + 1) * cs" by simp
    then have "?n * cs = int k * cs + cs" by (simp add: algebra_simps)
    then show ?thesis
      using numChunks_upper[OF assms(1), of len] True by (simp add: size_of_chunk_def)
  next
    case False
    then show ?thesis by (simp add: size_of_chunk_def)
  qed
qed

lemma chunk_at_ok:
  assumes "0 < cs" "int (length file) + cs - 1 \<le> MaxInt64" "int k < numChunks_of (length file) cs"
  shows "chunk_at file cs (numChunks_of (length file) cs) (int k) =
         Inr \<lparr>Hash = Sprintf_x (Sum256 (digested file cs k)),
              Size = size_of_chunk (length file) cs k\<rparr>"
proof -
  let ?len = "length file"
  let ?n = "numChunks_of ?len cs"
  let ?sz = "size_of_chunk ?len cs k"
  note b = size_of_chunk_bounds[OF assms(1) assms(3)]
  have len: "int ?len \<le> MaxInt64" using assms(1,2) by linarith
  have n1: "sub64 ?n 1 = ?n - 1"
    unfolding sub64_def using assms(3) numChunks_le[OF assms(1), of ?len] assms(2)
    by (intro wrap64_id) auto
  have k0: "0 \<le> int k * cs" using assms(1) by simp
  have kcs: "mul64 (int k) cs = int k * cs"
    unfolding mul64_def using b(3) len k0
    by (intro wrap64_id) auto
  have sub: "sub64 (int ?len) (int k * cs) = int ?len - int k * cs"
    unfolding sub64_def using b(3) len k0
    by (intro wrap64_id) auto
  have sz: "(if int k = ?n - 1 then int ?len - int k * cs else cs) = ?sz"
    by (simp add: size_of_chunk_def)
  have nn: "0 \<le> int k * ?sz" using b(1) by simp
  have "int k * ?sz \<le> int k * cs"
    using b(2) by (intro mult_left_mono) auto
  then have off: "mul64 (int k) ?sz = int k * ?sz"
    unfolding mul64_def using b(3) len nn
    by (intro wrap64_id) auto
  have "nat (int k * ?sz) = k * nat ?sz"
    by (simp add: nat_mult_distrib)
  then show ?thesis
    unfolding chunk_at_def Let_def n1 kcs sub sz off
    using nn by (simp add: digested_def)
qed

lemma chunk_loop_ok:
  assumes "\<And>j. i \<le> j \<Longrightarrow> j < nat n \<Longrightarrow> chunk_at file cs n (int j) = Inr (f j)"
    and "i \<le> nat n" "length chunks = nat n"
  shows "chunk_loop file cs n (int i) chunks = Inr (take i chunks @ map f [i..<nat n])"
  using assms
proof (induction "nat n - i" arbitrary: i chunks)
  case 0
  then have "\<not> int i < n" by linarith
  moreover have "i = nat n" using 0 by simp
  ultimately show ?case using 0 by (subst chunk_loop.simps) simp
next
  case (Suc d)
  then have lt: "i < nat n" by linarith
  then have lt': "int i < n" by linarith
  have at: "chunk_at file cs n (int i) = Inr (f i)" using Suc.prems(1) lt by simp
  have "chunk_loop file cs n (int (Suc i)) (chunks[i := f i]) =
        Inr (take (Suc i) (chunks[i := f i]) @ map f [Suc i..<nat n])"
    using Suc lt by (intro Suc.hyps(1)) auto
  then have "chunk_loop file cs n (int i + 1) (chunks[i := f i]) =
        Inr (take (Suc i) (chunks[i := f i]) @ map f [Suc i..<nat n])"
    by (simp add: add.commute)
  moreover have "take (Suc i) (chunks[i := f i]) = take i chunks @ [f i]"
    using lt Suc.prems(3) by (simp add: take_Suc_conv_app_nth)
  moreover have "[i..<nat n] = i # [Suc i..<nat n]"
    using lt by (simp add: upt_conv_Cons)
  ultimately show ?case
    using lt' at by (subst chunk_loop.simps) (simp )
qed

lemma CreateManifest_ok:
  assumes "0 < cs" "int (length file) + cs - 1 \<le> MaxInt64"
  shows "CreateManifest name (Some file) cs =
         Inr \<lparr>FileName = name, FileSize = int (length file), ChunkSize = cs,
              Chunks = manifest_chunks file cs, FileHash = Sprintf_x (Sum256 file)\<rparr>"
proof -
  let ?n = "numChunks_of (length file) cs"
  have n: "quot64 (sub64 (add64 (int (length file)) cs) 1) cs = ?n"
    by (rule quot64_numChunks[OF assms])
  have nn: "0 \<le> ?n" by (rule numChunks_nonneg[OF assms(1)])
  have "chunk_loop file cs ?n (int 0) (replicate (nat ?n) \<lparr>Hash = [], Size = 0\<rparr>) =
        Inr (take 0 (replicate (nat ?n) \<lparr>Hash = [], Size = 0\<rparr>) @
             map (\<lambda>k. \<lparr>Hash = Sprintf_x (Sum256 (digested file cs k)),
               Size = size_of_chunk (length file) cs k\<rparr>) [0..<nat ?n])"
    using assms by (intro chunk_loop_ok chunk_at_ok) auto
  then show ?thesis
    using assms(1) nn by (simp add: CreateManifest_def n manifest_chunks_def Let_def )
qed



lemma numChunks_ceiling:
  assumes "0 < cs"
  shows "\<lceil>real len / real_of_int cs\<rceil> = numChunks_of len cs"
proof (rule ceiling_unique)
  let ?n = "numChunks_of len cs"
  have c: "0 < real_of_int cs" using assms by simp
  have "real_of_int ((?n - 1) * cs) < real_of_int (int len)"
    using numChunks_lower[OF assms, of len] by (simp only: of_int_less_iff)
  then have "(real_of_int ?n - 1) * real_of_int cs < real len" by simp
  then show "real_of_int ?n - 1 < real len / real_of_int cs"
    using c by (simp only: pos_less_divide_eq)
  have "real_of_int (int len) \<le> real_of_int (?n * cs)"
    using numChunks_upper[OF assms, of len] by (simp only: of_int_le_iff)
  then have "real len \<le> real_of_int ?n * real_of_int cs" by simp
  then show "real len / real_of_int cs \<le> real_of_int ?n"
    using c by (simp only: pos_divide_le_eq)
qed

lemma length_manifest_chunks: "length (manifest_chunks file cs) = nat (numChunks_of (length file) cs)"
  by (simp add: manifest_chunks_def)

lemma Size_manifest_chunks:
  "k < nat (numChunks_of (length file) cs) \<Longrightarrow>
   Size (manifest_chunks file cs ! k) = size_of_chunk (length file) cs k"
  by (simp add: manifest_chunks_def)

lemma Hash_manifest_chunks:
  "k < nat (numChunks_of (length file) cs) \<Longrightarrow>
   Hash (manifest_chunks file cs ! k) =
   Sprintf_x (Sum256 (digested file cs k))"
  by (simp add: manifest_chunks_def)

lemma sizes_manifest_chunks:
  "map Size (manifest_chunks file cs) =
   map (size_of_chunk (length file) cs) [0..<nat (numChunks_of (length file) cs)]"
  by (simp add: manifest_chunks_def comp_def)

lemma sum_sizes:
  assumes "0 < cs"
  shows "sum_list (map (size_of_chunk len cs) [0..<nat (numChunks_of len cs)]) = int len"
proof (cases "nat (numChunks_of len cs)")
  case 0
  then have "numChunks_of len cs \<le> 0" by simp
  then have "numChunks_of len cs * cs \<le> 0"
    using assms by (simp add: mult_le_0_iff)
  then have "int len \<le> 0" using numChunks_upper[OF assms, of len] by linarith
  then show ?thesis using 0 by simp
next
  case (Suc M)
  then have n: "numChunks_of len cs = int M + 1" by linarith
  have eq: "map (size_of_chunk len cs) [0..<M] = map (\<lambda>_. cs) [0..<M]"
    by (rule map_cong) (auto simp: size_of_chunk_def n)
  have "sum_list (map (size_of_chunk len cs) [0..<M]) = int M * cs"
    unfolding eq by (simp add: sum_list_triv)
  moreover have "size_of_chunk len cs M = int len - int M * cs"
    by (simp add: size_of_chunk_def n)
  ultimately show ?thesis using Suc by simp
qed

lemma numChunks_zero_iff:
  assumes "0 < cs"
  shows "nat (numChunks_of len cs) = 0 \<longleftrightarrow> len = 0"
proof
  assume "nat (numChunks_of len cs) = 0"
  then have "numChunks_of len cs \<le> 0" by simp
  then have "numChunks_of len cs * cs \<le> 0"
    using assms by (simp add: mult_le_0_iff)
  then show "len = 0" using numChunks_upper[OF assms, of len] by linarith
next
  assume "len = 0"
  then show "nat (numChunks_of len cs) = 0"
    using assms by (simp add: numChunks_of_def div_pos_pos_trivial)
qed


subsection \<open>Chunk sizes\<close>

text \<open>
  C5, on every input where the rounding-up addition \<open>fileSize + chunkSize - 1\<close> stays
  within int64: for a positive chunk size \<open>CreateManifest\<close> returns a manifest with
  \<open>ceil(fileSize / chunkSize)\<close> chunks whose sizes sum to the file size; every chunk but
  the last has the chunk size, the last one a size in \<open>(0, chunkSize]\<close>, and there are no
  chunks exactly when the file is empty.
\<close>

theorem CreateManifest_chunk_sizes:
  assumes "0 < chunkSize" and "int (length file) + chunkSize - 1 \<le> MaxInt64"
  shows "\<exists>m. CreateManifest name (Some file) chunkSize = Inr m
     \<and> int (length (Chunks m)) = \<lceil>real (length file) / real_of_int chunkSize\<rceil>
     \<and> sum_list (map Size (Chunks m)) = int (length file)
     \<and> (\<forall>i. Suc i < length (Chunks m) \<longrightarrow> Size (Chunks m ! i) = chunkSize)
     \<and> (Chunks m \<noteq> [] \<longrightarrow> 0 < Size (last (Chunks m)) \<and> Size (last (Chunks m)) \<le> chunkSize)
     \<and> (Chunks m = [] \<longleftrightarrow> file = [])"
proof -
  let ?cs = "manifest_chunks file chunkSize"
  let ?n = "numChunks_of (length file) chunkSize"
  have nn: "0 \<le> ?n" by (rule numChunks_nonneg[OF assms(1)])
  have len: "length ?cs = nat ?n" by (rule length_manifest_chunks)
  have 1: "int (length ?cs) = \<lceil>real (length file) / real_of_int chunkSize\<rceil>"
    using nn by (simp add: len numChunks_ceiling[OF assms(1)])
  have 2: "sum_list (map Size ?cs) = int (length file)"
    by (simp only: sizes_manifest_chunks sum_sizes[OF assms(1)])
  have 3: "Size (?cs ! i) = chunkSize" if "Suc i < length ?cs" for i
  proof -
    have "i < nat ?n" "int i \<noteq> ?n - 1" using that len by linarith+
    then show ?thesis by (simp add: Size_manifest_chunks size_of_chunk_def)
  qed
  have 4: "0 < Size (last ?cs) \<and> Size (last ?cs) \<le> chunkSize" if "?cs \<noteq> []"
  proof -
    from that have pos: "0 < nat ?n" using len by (cases ?cs) auto
    then have lt: "nat ?n - 1 < nat ?n" by simp
    have "last ?cs = ?cs ! (nat ?n - 1)"
      using that by (simp add: last_conv_nth len)
    then have "Size (last ?cs) = size_of_chunk (length file) chunkSize (nat ?n - 1)"
      using lt by (simp only: Size_manifest_chunks)
    moreover have "int (nat ?n - 1) < ?n" using pos by linarith
    ultimately show ?thesis
      using size_of_chunk_bounds(1,2)[OF assms(1), of "nat ?n - 1" "length file"] by simp
  qed
  have 5: "?cs = [] \<longleftrightarrow> file = []"
    using numChunks_zero_iff[OF assms(1), of "length file"] len by (metis length_0_conv)
  show ?thesis
    using 1 2 3 4 5 by (simp add: CreateManifest_ok[OF assms])
qed

text \<open>The same at a file of five bytes cut into chunks of two: the sizes are 2, 2 and 1.\<close>

theorem CreateManifest_chunk_sizes_witness:
  "\<exists>m. CreateManifest ''f'' (Some [0x61, 0x62, 0x63, 0x64, 0x65]) 2 = Inr m
     \<and> length (Chunks m) = 3
     \<and> sum_list (map Size (Chunks m)) = 5
     \<and> Size (Chunks m ! 0) = 2 \<and> Size (Chunks m ! 1) = 2
     \<and> 0 < Size (last (Chunks m)) \<and> Size (last (Chunks m)) \<le> 2"
proof -
  have c: "\<lceil>real (length [0x61, 0x62, 0x63, 0x64, 0x65 :: byte]) / real_of_int 2\<rceil> = 3"
    by (simp add: ceiling_eq_iff)
  obtain m where m: "CreateManifest ''f'' (Some [0x61, 0x62, 0x63, 0x64, 0x65]) 2 = Inr m"
    and l: "int (length (Chunks m)) = 3"
    and s: "sum_list (map Size (Chunks m)) = int (length [0x61, 0x62, 0x63, 0x64, 0x65 :: byte])"
    and a: "\<forall>i. Suc i < length (Chunks m) \<longrightarrow> Size (Chunks m ! i) = 2"
    and b: "Chunks m \<noteq> [] \<longrightarrow> 0 < Size (last (Chunks m)) \<and> Size (last (Chunks m)) \<le> 2"
    using CreateManifest_chunk_sizes [of 2 "[0x61, 0x62, 0x63, 0x64, 0x65]" "''f''"]
    unfolding c by (auto simp: MaxInt64_def)
  have l': "length (Chunks m) = 3" using l by linarith
  then have "Chunks m \<noteq> []" by auto
  moreover have "Size (Chunks m ! 0) = 2" "Size (Chunks m ! 1) = 2" using a l' by simp_all
  ultimately show ?thesis using m l' s b by auto
qed

text \<open>
  Where that addition overflows the claim fails: for a file of two bytes and the chunk
  size \<open>2^63 - 1\<close> the sum wraps to \<open>-2^63\<close>, the quotient is \<open>-1\<close>, and \<open>make\<close> panics on
  the negative length.
\<close>

theorem CreateManifest_overflow_panics:
  "CreateManifest ''f'' (Some [0x61, 0x62]) 9223372036854775807 = Inl PanicMakeslice"
  by (simp add: CreateManifest_def add64_def sub64_def quot64_def wrap64_def)

subsection \<open>The digests of a manifest\<close>

lemma upt_0_2: "[0..<2] = [0, Suc 0]"
  by (simp add: numeral_2_eq_2 upt_conv_Cons)

lemma upt_0_3: "[0..<3] = [0, Suc 0, Suc (Suc 0)]"
  by (simp add: numeral_3_eq_3 upt_conv_Cons)

lemma CreateManifest_hashes:
  assumes "0 < cs" "int (length file) + cs - 1 \<le> MaxInt64"
    "CreateManifest name (Some file) cs = Inr m" "k < length (Chunks m)"
  shows "Hash (Chunks m ! k) =
         Sprintf_x (Sum256 (drop (k * nat (Size (Chunks m ! k))) file))"
proof -
  have m: "Chunks m = manifest_chunks file cs"
    using assms(3) by (auto simp: CreateManifest_ok[OF assms(1,2)])
  then have "k < nat (numChunks_of (length file) cs)"
    using assms(4) by (simp add: length_manifest_chunks)
  then show ?thesis
    by (simp add: m Hash_manifest_chunks Size_manifest_chunks digested_def)
qed

text \<open>
  C2 fails on the code. For the two-byte file \<open>ab\<close> cut into chunks of one byte, the hash
  that \<open>CreateManifest\<close> records for chunk 0 is the digest of both bytes (\<open>WriteTo\<close>
  copies to the end of the file), not the digest of the chunk's own byte range \<open>[0, 1)\<close>,
  and the two digests differ.
\<close>

theorem CreateManifest_digests_to_end_of_file:
  "CreateManifest ''f'' (Some [0x61, 0x62]) 1 =
     Inr \<lparr>FileName = ''f'', FileSize = 2, ChunkSize = 1,
          Chunks = [\<lparr>Hash = Sprintf_x (Sum256 [0x61, 0x62]), Size = 1\<rparr>,
                    \<lparr>Hash = Sprintf_x (Sum256 [0x62]), Size = 1\<rparr>],
          FileHash = Sprintf_x (Sum256 [0x61, 0x62])\<rparr>
   \<and> chunk_range [0x61, 0x62] 1 0 = [0x61]
   \<and> Sprintf_x (Sum256 [0x61, 0x62]) \<noteq> Sprintf_x (Sum256 (chunk_range [0x61, 0x62] 1 0))"
proof -
  have "manifest_chunks [0x61, 0x62] 1 =
        [\<lparr>Hash = Sprintf_x (Sum256 [0x61, 0x62]), Size = 1\<rparr>,
         \<lparr>Hash = Sprintf_x (Sum256 [0x62]), Size = 1\<rparr>]"
    by (simp add: manifest_chunks_def numChunks_of_def digested_def size_of_chunk_def upt_0_2)
  moreover have r: "chunk_range [0x61, 0x62] 1 0 = [0x61]"
    by (simp add: chunk_range_def size_of_chunk_def numChunks_of_def)
  ultimately show ?thesis
    using digest_ab_neq_a by (simp add: CreateManifest_ok MaxInt64_def)
qed

section \<open>The chunk store\<close>

lemma offset_loop_eq:
  "0 \<le> sz \<Longrightarrow> 0 \<le> off \<Longrightarrow> off + int n * sz \<le> MaxInt64 \<Longrightarrow>
   offset_loop n sz off = off + int n * sz"
proof (induction n arbitrary: off)
  case 0
  then show ?case by simp
next
  case (Suc n)
  have le: "off + sz \<le> off + int (Suc n) * sz"
    using Suc.prems(1) by (simp add: algebra_simps)
  then have "add64 off sz = off + sz"
    unfolding add64_def using Suc.prems by (intro wrap64_id) auto
  moreover have "offset_loop n sz (off + sz) = off + sz + int n * sz"
    using Suc.prems by (intro Suc.IH) (auto simp: algebra_simps)
  ultimately show ?case by (simp add: algebra_simps)
qed

text \<open>What \<open>GetChunk\<close> does on a chunk of a manifest: it reads at 64 times the chunk's size.\<close>

lemma GetChunk_reads_at:
  assumes "Hash chunk = Sprintf_x (Sum256 d)" "0 \<le> Size chunk" "64 * Size chunk \<le> MaxInt64"
  shows "GetChunk (Some file) chunk =
     (case ReadFull (drop (64 * nat (Size chunk)) file, Fin) (nat (Size chunk)) of
        Inl e \<Rightarrow> Inl e
      | Inr data \<Rightarrow> if Sprintf_x (Sum256 data) \<noteq> Hash chunk then Inl HashVerificationFailed
                    else Inr data)"
proof -
  have "offset_loop (length (Hash chunk)) (Size chunk) 0 = 64 * Size chunk"
    using assms by (simp add: offset_loop_eq length_hex_digest)
  moreover have "nat (64 * Size chunk) = 64 * nat (Size chunk)"
    by (simp add: nat_mult_distrib)
  ultimately show ?thesis
    using assms(2) by (simp add: GetChunk_def Let_def)
qed

text \<open>
  C1 fails on the code. \<open>GetChunk\<close> takes no index: its offset is the chunk's size times the
  length of the chunk's hash string, 64 for a digest. For the file \<open>ab\<close> and chunk 0 of its
  manifest with chunk size 1, it seeks to offset 64 and reads nothing, where the read at
  \<open>index * chunkSize\<close> that the claim describes returns the first byte.
\<close>

theorem GetChunk_offset_from_hash_length:
  "GetChunk (Some [0x61, 0x62]) \<lparr>Hash = Sprintf_x (Sum256 [0x61]), Size = 1\<rparr> = Inl EOF
   \<and> ReadChunk_spec [0x61, 0x62]
        \<lparr>FileName = ''f'', FileSize = 2, ChunkSize = 1,
         Chunks = [\<lparr>Hash = Sprintf_x (Sum256 [0x61]), Size = 1\<rparr>,
                   \<lparr>Hash = Sprintf_x (Sum256 [0x62]), Size = 1\<rparr>],
         FileHash = Sprintf_x (Sum256 [0x61, 0x62])\<rparr> 0 = Some [0x61]"
proof -
  have "GetChunk (Some [0x61, 0x62]) \<lparr>Hash = Sprintf_x (Sum256 [0x61]), Size = 1\<rparr> = Inl EOF"
    by (subst GetChunk_reads_at [where d = "[0x61]"]) (simp_all add: MaxInt64_def ReadFull_def)
  then show ?thesis by (simp add: ReadChunk_spec_def)
qed

section \<open>The serving peer\<close>

lemma DefaultChunkSize_pos: "0 < DefaultChunkSize"
  by (simp add: DefaultChunkSize_def)

lemma handleConnection_served:
  assumes "int (length file) + DefaultChunkSize - 1 \<le> MaxInt64"
  shows "handleConnection rd path (Some file) (Decoded idx) =
     (if idx < 0 \<or> numChunks_of (length file) DefaultChunkSize \<le> idx
      then ClosedSilently (InvalidChunkIndex idx)
      else (case rd (Some file)
                  \<lparr>FileName = path, FileSize = int (length file), ChunkSize = DefaultChunkSize,
                   Chunks = manifest_chunks file DefaultChunkSize,
                   FileHash = Sprintf_x (Sum256 file)\<rparr> idx of
              Inl e \<Rightarrow> ClosedSilently (ChunkReadFailed e)
            | Inr chunkData \<Rightarrow> Wrote chunkData))"
  using numChunks_nonneg[OF DefaultChunkSize_pos, of "length file"]
  by (simp add: handleConnection_def CreateManifest_ok[OF DefaultChunkSize_pos assms]
      length_manifest_chunks)

lemma handleConnection_out_of_range:
  assumes "CreateManifest path fileopt DefaultChunkSize = Inr m"
    and "idx < 0 \<or> int (length (Chunks m)) \<le> idx"
  shows "handleConnection rd path fileopt (Decoded idx) = ClosedSilently (InvalidChunkIndex idx)"
  using assms by (auto simp: handleConnection_def)

subsection \<open>What the chunk reader of the specification serves\<close>




subsection \<open>Chunk boundaries under two chunk sizes\<close>









section \<open>The downloading peer\<close>

subsection \<open>The loop\<close>

lemma still_open_0 [simp]: "still_open i 0 = []"
  by (simp add: still_open_def)

lemma upt_shift: "[i..<i + Suc n] = i # [Suc i..<Suc i + n]"
  by (simp add: upt_conv_Cons del: upt_Suc)

lemma still_open_Suc: "still_open i (Suc n) = still_open (Suc i) n @ [i]"
  unfolding still_open_def upt_shift by simp

lemma dialled_0 [simp]: "dialled i 0 = []"
  by (simp add: dialled_def)

lemma dialled_Suc: "dialled i (Suc n) = Dial i # Request i (int i) # dialled (Suc i) n"
  unfolding dialled_def upt_shift by simp

lemma reliable_simps [simp]:
  "mkdir_ok (reliable r)" "create_ok (reliable r)" "dial_ok (reliable r) n"
  "send_ok (reliable r) n" "write_ok (reliable r) n" "reply (reliable r) = r"
  by (simp_all add: reliable_def)

lemma Chunks_manifest_of [simp]: "Chunks (manifest_of cs) = cs"
  by (simp add: manifest_of_def)

lemma download_loop_pass:
  "all_pass e pre i ds \<Longrightarrow>
   download_loop e (pre @ rest) i st =
   download_loop e rest (i + length pre)
     \<lparr>out = out st @ concat ds, events = events st @ dialled i (length pre),
      deferred = still_open i (length pre) @ deferred st\<rparr>"
proof (induction pre arbitrary: i ds st)
  case Nil
  then show ?case by (cases ds; cases st) simp_all
next
  case (Cons c pre)
  then obtain d ds' where ds: "ds = d # ds'" by (cases ds) auto
  with Cons.prems have p: "chunk_passes e c i d" and rest: "all_pass e pre (Suc i) ds'"
    by simp_all
  have step: "download_loop e ((c # pre) @ rest) i st =
     download_loop e (pre @ rest) (Suc i)
       \<lparr>out = out st @ d, events = events st @ [Dial i, Request i (int i)],
        deferred = i # deferred st\<rparr>"
    using p by (cases st) (simp add: chunk_passes_def chunk_arrives_def Let_def)
  show ?case
    unfolding step Cons.IH[OF rest]
    by (simp add: ds dialled_Suc still_open_Suc)
qed

lemma download_loop_verify_fails:
  assumes "chunk_arrives e c i d" "\<not> VerifyChunk c d"
  shows "download_loop e (c # rest) i st =
     (Some HashVerificationFailed,
      \<lparr>out = out st, events = events st @ [Dial i, Request i (int i)], deferred = i # deferred st\<rparr>)"
  using assms by (cases st) (simp add: chunk_arrives_def Let_def)

lemma ReadFull_short:
  assumes "length (fst s) < n"
  shows "\<exists>er. ReadFull s n = Inl er"
  using assms by (auto simp: ReadFull_def)

lemma download_loop_short_read:
  assumes "dial_ok e i" "send_ok e i" "0 \<le> Size c" "length (fst (reply e (int i))) < nat (Size c)"
  shows "\<exists>er. download_loop e (c # rest) i st =
     (Some (ReadFailed er),
      \<lparr>out = out st, events = events st @ [Dial i, Request i (int i)], deferred = i # deferred st\<rparr>)"
proof -
  obtain er where "ReadFull (reply e (int i)) (nat (Size c)) = Inl er"
    using ReadFull_short[OF assms(4)] by blast
  then show ?thesis using assms(1-3) by (cases st) (simp add: Let_def)
qed

lemma requested_append: "requested (xs @ ys) = requested xs @ requested ys"
  by (induction xs rule: requested.induct) auto

lemma requested_Close: "requested (map Close cs) = []"
  by (induction cs) auto

lemma requested_dialled: "requested (dialled i n) = map int [i..<i + n]"
proof (induction n arbitrary: i)
  case 0
  then show ?case by simp
next
  case (Suc n)
  show ?case unfolding dialled_Suc upt_shift by (simp add: Suc.IH)
qed

lemma DownloadFile_stops_at:
  assumes "mkdir_ok e" "create_ok e" "Chunks m = pre @ c # rest" "all_pass e pre 0 ds"
    and "download_loop e (c # rest) (length pre)
           \<lparr>out = concat ds, events = dialled 0 (length pre), deferred = still_open 0 (length pre)\<rparr> =
         (Some er, \<lparr>out = concat ds, events = dialled 0 (length pre) @ [Dial (length pre), Request (length pre) (int (length pre))],
                    deferred = length pre # still_open 0 (length pre)\<rparr>)"
  shows "DownloadFile e m =
     \<lparr>err = Some er, written = Some (concat ds),
      trace = dialled 0 (Suc (length pre)) @ map Close (still_open 0 (Suc (length pre)))\<rparr>"
proof -
  have d: "dialled 0 (Suc n) = dialled 0 n @ [Dial n, Request n (int n)]" for n
    by (simp add: dialled_def)
  have s: "still_open 0 (Suc n) = n # still_open 0 n" for n
    by (simp add: still_open_def)
  show ?thesis
    using assms(1,2)
    by (simp add: DownloadFile_def assms(3) download_loop_pass[OF assms(4)] assms(5) d s
        del: download_loop.simps)
qed

lemma DownloadFile_success:
  assumes "mkdir_ok e" "create_ok e" "all_pass e (Chunks m) 0 ds"
  shows "DownloadFile e m =
     \<lparr>err = None, written = Some (concat ds),
      trace = dialled 0 (length (Chunks m)) @ map Close (still_open 0 (length (Chunks m)))\<rparr>"
  using assms(1,2) download_loop_pass[OF assms(3), of "[]"]
  by (simp add: DownloadFile_def)

subsection \<open>Silent closes and short reads\<close>

text \<open>
  A request whose index is outside \<open>[0, len(chunks))\<close> makes \<open>handleConnection\<close> close the
  connection with nothing written. In \<open>DownloadFile\<close>, a connection that ends before
  \<open>chunk.size\<close> bytes have arrived ends the download with a read error, and nothing of that
  chunk is written. \<open>DownloadChunk\<close>, which is given no size, returns the bytes that arrived
  before an orderly end of the stream as its result, however few.
\<close>

lemma short_reads_and_silent_closes:
  "(CreateManifest path fileopt DefaultChunkSize = Inr sm \<and> (idx < 0 \<or> int (length (Chunks sm)) \<le> idx)
      \<longrightarrow> handleConnection rd path fileopt (Decoded idx) = ClosedSilently (InvalidChunkIndex idx)
          \<and> on_the_wire (handleConnection rd path fileopt (Decoded idx)) = ([], Fin))
   \<and> (mkdir_ok e \<and> create_ok e \<and> Chunks m = pre @ c # rest \<and> all_pass e pre 0 ds
        \<and> dial_ok e (length pre) \<and> send_ok e (length pre) \<and> 0 \<le> Size c
        \<and> length (fst (reply e (int (length pre)))) < nat (Size c)
      \<longrightarrow> (\<exists>er. err (DownloadFile e m) = Some (ReadFailed er))
          \<and> written (DownloadFile e m) = Some (concat ds))
   \<and> (dial_ok e' 0 \<and> send_ok e' 0 \<and> snd (reply e' idx') = Fin
      \<longrightarrow> fst (DownloadChunk e' idx') = Inr (fst (reply e' idx')))"
proof (intro conjI impI)
  assume a: "CreateManifest path fileopt DefaultChunkSize = Inr sm \<and> (idx < 0 \<or> int (length (Chunks sm)) \<le> idx)"
  then show "handleConnection rd path fileopt (Decoded idx) = ClosedSilently (InvalidChunkIndex idx)"
    by (intro handleConnection_out_of_range) auto
  then show "on_the_wire (handleConnection rd path fileopt (Decoded idx)) = ([], Fin)"
    by (simp add: on_the_wire_def)
next
  assume a: "mkdir_ok e \<and> create_ok e \<and> Chunks m = pre @ c # rest \<and> all_pass e pre 0 ds
        \<and> dial_ok e (length pre) \<and> send_ok e (length pre) \<and> 0 \<le> Size c
        \<and> length (fst (reply e (int (length pre)))) < nat (Size c)"
  then obtain er where "download_loop e (c # rest) (length pre)
           \<lparr>out = concat ds, events = dialled 0 (length pre), deferred = still_open 0 (length pre)\<rparr> =
         (Some (ReadFailed er), \<lparr>out = concat ds, events = dialled 0 (length pre) @ [Dial (length pre), Request (length pre) (int (length pre))],
                    deferred = length pre # still_open 0 (length pre)\<rparr>)"
    using download_loop_short_read[of e "length pre" c rest
        "\<lparr>out = concat ds, events = dialled 0 (length pre), deferred = still_open 0 (length pre)\<rparr>"]
    by auto
  then have "DownloadFile e m =
     \<lparr>err = Some (ReadFailed er), written = Some (concat ds),
      trace = dialled 0 (Suc (length pre)) @ map Close (still_open 0 (Suc (length pre)))\<rparr>"
    using a by (intro DownloadFile_stops_at) auto
  then show "\<exists>er. err (DownloadFile e m) = Some (ReadFailed er)"
    and "written (DownloadFile e m) = Some (concat ds)" by simp_all
next
  assume "dial_ok e' 0 \<and> send_ok e' 0 \<and> snd (reply e' idx') = Fin"
  then show "fst (DownloadChunk e' idx') = Inr (fst (reply e' idx'))"
    by (simp add: DownloadChunk_def ReadAll_def)
qed

text \<open>
  The same on concrete inputs: index 1 of a two-byte file, a peer that answers only the
  first request, and a peer that sends nothing.
\<close>

lemma short_reads_and_silent_closes_example:
  "handleConnection rd ''f'' (Some [0x61, 0x62]) (Decoded 1) = ClosedSilently (InvalidChunkIndex 1)
   \<and> (\<exists>er. err (DownloadFile (reliable (\<lambda>i. if i = 0 then ([0x61], Fin) else ([], Fin)))
                 (manifest_of [\<lparr>Hash = Sprintf_x (Sum256 [0x61]), Size = 1\<rparr>,
                               \<lparr>Hash = Sprintf_x (Sum256 [0x61]), Size = 1\<rparr>])) = Some (ReadFailed er))
   \<and> written (DownloadFile (reliable (\<lambda>i. if i = 0 then ([0x61], Fin) else ([], Fin)))
                 (manifest_of [\<lparr>Hash = Sprintf_x (Sum256 [0x61]), Size = 1\<rparr>,
                               \<lparr>Hash = Sprintf_x (Sum256 [0x61]), Size = 1\<rparr>])) = Some [0x61]
   \<and> fst (DownloadChunk (reliable (\<lambda>i. ([], Fin))) 7) = Inr []"
proof -
  have m: "CreateManifest ''f'' (Some [0x61, 0x62]) DefaultChunkSize =
       Inr \<lparr>FileName = ''f'', FileSize = 2, ChunkSize = DefaultChunkSize,
            Chunks = manifest_chunks [0x61, 0x62] DefaultChunkSize,
            FileHash = Sprintf_x (Sum256 [0x61, 0x62])\<rparr>"
    by (subst CreateManifest_ok) (simp_all add: MaxInt64_def DefaultChunkSize_def)
  have n: "length (manifest_chunks [0x61, 0x62] DefaultChunkSize) = 1"
    by (simp add: length_manifest_chunks numChunks_of_def DefaultChunkSize_def)
  show ?thesis
    using short_reads_and_silent_closes
      [where path = "''f''" and fileopt = "Some [0x61, 0x62]" and idx = 1 and rd = rd
         and sm = "\<lparr>FileName = ''f'', FileSize = 2, ChunkSize = DefaultChunkSize,
            Chunks = manifest_chunks [0x61, 0x62] DefaultChunkSize,
            FileHash = Sprintf_x (Sum256 [0x61, 0x62])\<rparr>"
         and e = "reliable (\<lambda>i. if i = 0 then ([0x61], Fin) else ([], Fin))"
         and m = "manifest_of [\<lparr>Hash = Sprintf_x (Sum256 [0x61]), Size = 1\<rparr>,
                               \<lparr>Hash = Sprintf_x (Sum256 [0x61]), Size = 1\<rparr>]"
         and pre = "[\<lparr>Hash = Sprintf_x (Sum256 [0x61]), Size = 1\<rparr>]"
         and c = "\<lparr>Hash = Sprintf_x (Sum256 [0x61]), Size = 1\<rparr>" and rest = "[]"
         and ds = "[[0x61]]" and e' = "reliable (\<lambda>i. ([], Fin))" and idx' = 7]
    by (simp add: m n chunk_passes_def chunk_arrives_def ReadFull_def VerifyChunk_def)
qed

text \<open>
  C3 fails on the code. The serving peer does close the connection with nothing written
  when the index is out of range, and \<open>DownloadFile\<close> does fail on the short read; but
  \<open>DownloadChunk\<close> reads to the end of the stream and returns what it got. Against a peer
  that serves the two-byte file, whatever chunk reader \<open>rd\<close> that peer calls, its request
  for index 5 is closed silently, and it returns the empty chunk with no error.
\<close>

theorem DownloadChunk_returns_empty_chunk:
  "handleConnection rd ''f'' (Some [0x61, 0x62]) (Decoded 5) = ClosedSilently (InvalidChunkIndex 5)
   \<and> fst (DownloadChunk
        (reliable (\<lambda>i. on_the_wire (handleConnection rd ''f'' (Some [0x61, 0x62]) (Decoded i)))) 5)
       = Inr []"
proof -
  have "numChunks_of (length [0x61, 0x62 :: byte]) DefaultChunkSize = 1"
    by (simp add: numChunks_of_def DefaultChunkSize_def)
  then have "handleConnection rd ''f'' (Some [0x61, 0x62]) (Decoded 5) = ClosedSilently (InvalidChunkIndex 5)"
    by (subst handleConnection_served) (simp_all add: MaxInt64_def DefaultChunkSize_def)
  then show ?thesis
    by (simp add: DownloadChunk_def ReadAll_def on_the_wire_def)
qed

subsection \<open>A chunk that fails verification\<close>

text \<open>
  C4, with the error as the code has it. If the chunks before chunk \<open>k\<close> pass and chunk \<open>k\<close>
  arrives whole but its digest differs from the manifest's, \<open>DownloadFile\<close> returns the error
  "chunk hash verification failed", the same value for every \<open>k\<close>; the output file holds the
  chunks before \<open>k\<close> and no byte of chunk \<open>k\<close>; and the indices requested are \<open>0, ..., k\<close>, each
  once: no later chunk is fetched and none is fetched again.
\<close>

theorem DownloadFile_aborts_on_mismatch:
  assumes "mkdir_ok e" "create_ok e" "Chunks m = pre @ c # rest" "all_pass e pre 0 ds"
    and "chunk_arrives e c (length pre) d" "\<not> VerifyChunk c d"
  shows "err (DownloadFile e m) = Some HashVerificationFailed
     \<and> written (DownloadFile e m) = Some (concat ds)
     \<and> requested (trace (DownloadFile e m)) = map int [0..<Suc (length pre)]"
proof -
  have "DownloadFile e m =
     \<lparr>err = Some HashVerificationFailed, written = Some (concat ds),
      trace = dialled 0 (Suc (length pre)) @ map Close (still_open 0 (Suc (length pre)))\<rparr>"
    by (rule DownloadFile_stops_at[OF assms(1-4)])
       (simp add: download_loop_verify_fails[OF assms(5,6)] del: download_loop.simps)
  then show ?thesis
    using requested_dialled[of 0 "Suc (length pre)"]
    by (simp add: requested_append requested_Close del: upt_Suc)
qed

text \<open>The same for three chunks of which the second fails.\<close>

theorem DownloadFile_aborts_on_mismatch_witness:
  "err (DownloadFile (reliable (\<lambda>i. ([0x61], Fin)))
         (manifest_of [\<lparr>Hash = Sprintf_x (Sum256 [0x61]), Size = 1\<rparr>,
                       \<lparr>Hash = Sprintf_x (Sum256 [0x61, 0x62]), Size = 1\<rparr>,
                       \<lparr>Hash = Sprintf_x (Sum256 [0x61]), Size = 1\<rparr>])) = Some HashVerificationFailed
   \<and> written (DownloadFile (reliable (\<lambda>i. ([0x61], Fin)))
         (manifest_of [\<lparr>Hash = Sprintf_x (Sum256 [0x61]), Size = 1\<rparr>,
                       \<lparr>Hash = Sprintf_x (Sum256 [0x61, 0x62]), Size = 1\<rparr>,
                       \<lparr>Hash = Sprintf_x (Sum256 [0x61]), Size = 1\<rparr>])) = Some [0x61]
   \<and> requested (trace (DownloadFile (reliable (\<lambda>i. ([0x61], Fin)))
         (manifest_of [\<lparr>Hash = Sprintf_x (Sum256 [0x61]), Size = 1\<rparr>,
                       \<lparr>Hash = Sprintf_x (Sum256 [0x61, 0x62]), Size = 1\<rparr>,
                       \<lparr>Hash = Sprintf_x (Sum256 [0x61]), Size = 1\<rparr>]))) = [0, 1]"
  using digest_ab_neq_a
    DownloadFile_aborts_on_mismatch
      [where e = "reliable (\<lambda>i. ([0x61], Fin))"
         and m = "manifest_of [\<lparr>Hash = Sprintf_x (Sum256 [0x61]), Size = 1\<rparr>,
                       \<lparr>Hash = Sprintf_x (Sum256 [0x61, 0x62]), Size = 1\<rparr>,
                       \<lparr>Hash = Sprintf_x (Sum256 [0x61]), Size = 1\<rparr>]"
         and pre = "[\<lparr>Hash = Sprintf_x (Sum256 [0x61]), Size = 1\<rparr>]"
         and c = "\<lparr>Hash = Sprintf_x (Sum256 [0x61, 0x62]), Size = 1\<rparr>"
         and rest = "[\<lparr>Hash = Sprintf_x (Sum256 [0x61]), Size = 1\<rparr>]"
         and ds = "[[0x61]]" and d = "[0x61]"]
  by (simp add: chunk_passes_def chunk_arrives_def ReadFull_def VerifyChunk_def eq_commute upt_0_2)

text \<open>
  As stated, the claim fails: the error carries no chunk index. A download that fails at
  chunk 0 and one that fails at chunk 1 return the same error.
\<close>

theorem mismatch_error_names_no_index:
  "err (DownloadFile (reliable (\<lambda>i. ([0x61], Fin)))
         (manifest_of [\<lparr>Hash = Sprintf_x (Sum256 [0x61, 0x62]), Size = 1\<rparr>,
                       \<lparr>Hash = Sprintf_x (Sum256 [0x61]), Size = 1\<rparr>])) = Some HashVerificationFailed
   \<and> requested (trace (DownloadFile (reliable (\<lambda>i. ([0x61], Fin)))
         (manifest_of [\<lparr>Hash = Sprintf_x (Sum256 [0x61, 0x62]), Size = 1\<rparr>,
                       \<lparr>Hash = Sprintf_x (Sum256 [0x61]), Size = 1\<rparr>]))) = [0]
   \<and> err (DownloadFile (reliable (\<lambda>i. ([0x61], Fin)))
         (manifest_of [\<lparr>Hash = Sprintf_x (Sum256 [0x61]), Size = 1\<rparr>,
                       \<lparr>Hash = Sprintf_x (Sum256 [0x61, 0x62]), Size = 1\<rparr>])) = Some HashVerificationFailed
   \<and> requested (trace (DownloadFile (reliable (\<lambda>i. ([0x61], Fin)))
         (manifest_of [\<lparr>Hash = Sprintf_x (Sum256 [0x61]), Size = 1\<rparr>,
                       \<lparr>Hash = Sprintf_x (Sum256 [0x61, 0x62]), Size = 1\<rparr>]))) = [0, 1]"
  using digest_ab_neq_a
  by (simp add: DownloadFile_def ReadFull_def VerifyChunk_def Let_def eq_commute)

subsection \<open>Connections\<close>

lemma max_open_ge: "n \<le> max_open n es"
  by (induction n es rule: max_open.induct) auto

lemma max_open_Close: "max_open n (map Close cs) = n"
proof (induction cs arbitrary: n)
  case Nil
  then show ?case by simp
next
  case (Cons c cs)
  then show ?case by simp
qed

lemma max_open_dialled: "max_open k (dialled i n @ es) = max_open (k + n) es"
proof (induction n arbitrary: i k)
  case 0
  then show ?case by simp
next
  case (Suc n)
  have "Suc k \<le> max_open (Suc k + n) es"
    using max_open_ge[of "Suc k + n" es] by linarith
  then show ?case by (simp add: dialled_Suc Suc.IH max_def)
qed

text \<open>A download that goes through holds every connection open until it returns.\<close>

lemma DownloadFile_success_max_open:
  assumes "mkdir_ok e" "create_ok e" "all_pass e (Chunks m) 0 ds"
  shows "max_open 0 (trace (DownloadFile e m)) = length (Chunks m)"
  by (simp add: DownloadFile_success[OF assms] max_open_dialled max_open_Close)

text \<open>
  C9 fails on the code. The \<open>Close\<close> of each connection is deferred to the return of
  \<open>DownloadFile\<close>: in a download of two chunks the second connection is dialled while the
  first is still open, and two connections are open at once.
\<close>

theorem DownloadFile_holds_connections_open:
  "DownloadFile (reliable (\<lambda>i. ([0x61], Fin)))
     (manifest_of [\<lparr>Hash = Sprintf_x (Sum256 [0x61]), Size = 1\<rparr>,
                   \<lparr>Hash = Sprintf_x (Sum256 [0x61]), Size = 1\<rparr>]) =
     \<lparr>err = None, written = Some [0x61, 0x61],
      trace = [Dial 0, Request 0 0, Dial 1, Request 1 1, Close 1, Close 0]\<rparr>
   \<and> max_open 0 (trace (DownloadFile (reliable (\<lambda>i. ([0x61], Fin)))
       (manifest_of [\<lparr>Hash = Sprintf_x (Sum256 [0x61]), Size = 1\<rparr>,
                     \<lparr>Hash = Sprintf_x (Sum256 [0x61]), Size = 1\<rparr>]))) = 2"
  by (simp add: DownloadFile_def ReadFull_def VerifyChunk_def Let_def)

section \<open>The tracker\<close>

lemma count_list_distinct: "distinct xs \<Longrightarrow> x \<in> set xs \<Longrightarrow> count_list xs x = 1"
  by (induction xs) auto

lemma known_peer_iff: "known_peer peer ps \<longleftrightarrow> peer \<in> set ps"
  by (induction ps) auto

lemma Announce_post:
  "fst (Announce t (post req)) =
     (if peer_of req \<in> set (elems (t (req_FileHash req))) then t
      else t(req_FileHash req \<mapsto> elems (t (req_FileHash req)) @ [peer_of req]))"
  by (simp add: Announce_def post_def peer_of_def known_peer_iff Let_def)

lemma Announce_cases:
  "fst (Announce t r) = t \<or> (\<exists>req. r\<lparr>QueryFileHash := []\<rparr> = post req \<and> fst (Announce t r) = fst (Announce t (post req)))"
  by (cases r; cases "Body r") (auto simp: Announce_def post_def Let_def)

lemma well_kept_Announce: "well_kept t \<Longrightarrow> well_kept (fst (Announce t r))"
proof -
  assume w: "well_kept t"
  have "well_kept (fst (Announce t (post req)))" for req
    using w by (auto simp: Announce_post well_kept_def elems_def)
  then show ?thesis using Announce_cases[of t r] w by auto
qed

lemma well_kept_foldl: "well_kept t \<Longrightarrow> well_kept (foldl (\<lambda>t r. fst (Announce t r)) t rs)"
  by (induction rs arbitrary: t) (auto simp: well_kept_Announce)

lemma well_kept_announce_all: "well_kept (announce_all rs)"
  unfolding announce_all_def by (rule well_kept_foldl) (simp add: well_kept_def NewTracker_def elems_def)

lemma peer_listed_after_Announce:
  "peer_of req \<in> set (elems (fst (Announce t (post req)) (req_FileHash req)))"
  by (simp add: Announce_post elems_def)

lemma Announce_again:
  "peer_of req \<in> set (elems (t (req_FileHash req))) \<Longrightarrow> fst (Announce t (post req)) = t"
  by (simp add: Announce_post)

lemma announce_times_Suc:
  "announce_times (Suc n) (post req) t = fst (Announce t (post req))"
proof (induction n arbitrary: t)
  case 0
  then show ?case by simp
next
  case (Suc n)
  show ?case
    using Suc.IH[of "fst (Announce t (post req))"]
    by (simp add: Announce_again peer_listed_after_Announce)
qed

text \<open>
  C6. After any history of requests, announcing the same file hash and peer once or
  more leaves exactly one entry for the peer under the hash, and every announcement after
  the first leaves the registry as it is.
\<close>

theorem Announce_idempotent:
  "count_list (elems (announce_times (Suc n) (post req) (announce_all rs) (req_FileHash req))) (peer_of req) = 1
   \<and> announce_times (Suc (Suc n)) (post req) (announce_all rs) = announce_times (Suc 0) (post req) (announce_all rs)"
proof -
  let ?t = "announce_all rs"
  let ?t' = "fst (Announce ?t (post req))"
  have "well_kept ?t'" by (intro well_kept_Announce well_kept_announce_all)
  then have "distinct (elems (?t' (req_FileHash req)))" by (simp add: well_kept_def)
  moreover have "peer_of req \<in> set (elems (?t' (req_FileHash req)))"
    by (rule peer_listed_after_Announce)
  ultimately have "count_list (elems (?t' (req_FileHash req))) (peer_of req) = 1"
    by (simp add: count_list_distinct)
  then show ?thesis by (simp only: announce_times_Suc simp_thms)
qed

text \<open>The same for three announcements of a peer that the history already lists.\<close>

theorem Announce_idempotent_witness:
  "count_list (elems (announce_times 3 (post \<lparr>req_FileHash = ''abc'', req_Address = ''localhost'', req_Port = 9000\<rparr>)
      (announce_all [post \<lparr>req_FileHash = ''abc'', req_Address = ''localhost'', req_Port = 9000\<rparr>,
                     post \<lparr>req_FileHash = ''abc'', req_Address = ''localhost'', req_Port = 9001\<rparr>]) ''abc''))
      \<lparr>Address = ''localhost'', Port = 9000\<rparr> = 1"
  using Announce_idempotent
    [of 2 "\<lparr>req_FileHash = ''abc'', req_Address = ''localhost'', req_Port = 9000\<rparr>"
       "[post \<lparr>req_FileHash = ''abc'', req_Address = ''localhost'', req_Port = 9000\<rparr>,
         post \<lparr>req_FileHash = ''abc'', req_Address = ''localhost'', req_Port = 9001\<rparr>]"]
  by (simp add: peer_of_def numeral_3_eq_3)

text \<open>
  C7, with the statuses and the checks the code has. A method other than POST is answered
  405, a body that does not decode 400, and every body that decodes is accepted with 200
  and its peer listed under its hash: the hash, the address and the port are not examined.
\<close>

theorem Announce_statuses:
  "(Method r \<noteq> ''POST'' \<longrightarrow> Announce t r = (t, http_Error ''Method not allowed'' 405))
   \<and> (Method r = ''POST'' \<and> Body r = DecodeError \<longrightarrow> Announce t r = (t, http_Error ''Invalid request'' 400))
   \<and> (Method r = ''POST'' \<and> Body r = Decoded req \<longrightarrow>
        StatusCode (snd (Announce t r)) = 200
        \<and> peer_of req \<in> set (elems (fst (Announce t r) (req_FileHash req))))"
  by (auto simp: Announce_def Let_def StatusCode_def peer_of_def known_peer_iff elems_def)

text \<open>The same for a PUT, for a POST whose body does not decode, and for a well-formed POST.\<close>

theorem Announce_statuses_witness:
  "Announce NewTracker \<lparr>Method = ''PUT'', Body = DecodeError, QueryFileHash = []\<rparr> =
     (NewTracker, http_Error ''Method not allowed'' 405)
   \<and> Announce NewTracker \<lparr>Method = ''POST'', Body = DecodeError, QueryFileHash = []\<rparr> =
     (NewTracker, http_Error ''Invalid request'' 400)
   \<and> StatusCode (snd (Announce NewTracker
        (post \<lparr>req_FileHash = ''abc'', req_Address = ''localhost'', req_Port = 9000\<rparr>))) = 200
   \<and> \<lparr>Address = ''localhost'', Port = 9000\<rparr> \<in> set (elems (fst (Announce NewTracker
        (post \<lparr>req_FileHash = ''abc'', req_Address = ''localhost'', req_Port = 9000\<rparr>)) ''abc''))"
  using Announce_statuses [of "\<lparr>Method = ''PUT'', Body = DecodeError, QueryFileHash = []\<rparr>" NewTracker]
    Announce_statuses [of "\<lparr>Method = ''POST'', Body = DecodeError, QueryFileHash = []\<rparr>" NewTracker]
    Announce_statuses [of "post \<lparr>req_FileHash = ''abc'', req_Address = ''localhost'', req_Port = 9000\<rparr>"
       NewTracker "\<lparr>req_FileHash = ''abc'', req_Address = ''localhost'', req_Port = 9000\<rparr>"]
  by (simp add: post_def peer_of_def)

text \<open>
  As stated, the claim fails: a GET is answered 405, not 400, and an announcement with an
  empty file hash, an empty address and the port -1 is accepted and stored.
\<close>

theorem Announce_accepts_malformed_and_answers_405:
  "StatusCode (snd (Announce NewTracker \<lparr>Method = ''GET'', Body = DecodeError, QueryFileHash = []\<rparr>)) = 405
   \<and> StatusCode (snd (Announce NewTracker
        (post \<lparr>req_FileHash = [], req_Address = [], req_Port = - 1\<rparr>))) = 200
   \<and> fst (Announce NewTracker (post \<lparr>req_FileHash = [], req_Address = [], req_Port = - 1\<rparr>)) [] =
       Some [\<lparr>Address = [], Port = - 1\<rparr>]"
  by (simp add: Announce_def post_def StatusCode_def http_Error_def NewTracker_def elems_def Let_def)

lemma Announce_other_hash:
  "\<not> announces h r \<Longrightarrow> fst (Announce t r) h = t h"
  by (cases "Body r") (auto simp: Announce_def announces_def Let_def)

lemma foldl_Announce_unannounced:
  "\<not> announced h rs \<Longrightarrow> foldl (\<lambda>t r. fst (Announce t r)) t rs h = t h"
  by (induction rs arbitrary: t) (auto simp: Announce_other_hash)

lemma unannounced_absent: "\<not> announced h rs \<Longrightarrow> announce_all rs h = None"
  by (simp add: announce_all_def foldl_Announce_unannounced NewTracker_def)

text \<open>
  C8, with the body the code writes. For a file hash that is not empty and that no request
  of the history announced, \<open>GetPeers\<close> answers 200 with the JSON object whose member
  \<open>peers\<close> is \<open>null\<close>, the encoding of the nil slice that the lookup yields; the slice has no
  elements. An empty file hash is answered 400, whatever the registry holds.
\<close>

theorem GetPeers_unknown_hash:
  assumes "h \<noteq> []" "\<not> announced h rs"
  shows "GetPeers (announce_all rs) \<lparr>Method = ''GET'', Body = b, QueryFileHash = h\<rparr> =
           \<lparr>Status = None, ContentType = Some ''application/json'',
            RespBody = Json (JObj [(''peers'', JNull)])\<rparr>
     \<and> StatusCode (GetPeers (announce_all rs) \<lparr>Method = ''GET'', Body = b, QueryFileHash = h\<rparr>) = 200
     \<and> elems (announce_all rs h) = []
     \<and> StatusCode (GetPeers t \<lparr>Method = ''GET'', Body = b, QueryFileHash = []\<rparr>) = 400"
  using assms
  by (simp add: GetPeers_def unannounced_absent encode_PeersResponse_def StatusCode_def elems_def
      http_Error_def)

text \<open>The same after one announcement of another hash.\<close>

theorem GetPeers_unknown_hash_witness:
  "GetPeers (announce_all [post \<lparr>req_FileHash = ''abc'', req_Address = ''localhost'', req_Port = 9000\<rparr>])
      \<lparr>Method = ''GET'', Body = DecodeError, QueryFileHash = ''xyz''\<rparr> =
           \<lparr>Status = None, ContentType = Some ''application/json'',
            RespBody = Json (JObj [(''peers'', JNull)])\<rparr>
   \<and> StatusCode (GetPeers (announce_all [post \<lparr>req_FileHash = ''abc'', req_Address = ''localhost'', req_Port = 9000\<rparr>])
      \<lparr>Method = ''GET'', Body = DecodeError, QueryFileHash = ''xyz''\<rparr>) = 200"
proof -
  have a: "\<not> announced ''xyz'' [post \<lparr>req_FileHash = ''abc'', req_Address = ''localhost'', req_Port = 9000\<rparr>]"
    by (simp add: announces_def post_def)
  have b: "''xyz'' \<noteq> []" by simp
  show ?thesis
    using GetPeers_unknown_hash [OF b a, of DecodeError] by blast
qed

text \<open>
  As stated, the claim fails: the body for an unknown hash holds \<open>null\<close>, not an empty
  array, and the empty hash is answered 400.
\<close>

theorem GetPeers_unknown_hash_null_or_400:
  "RespBody (GetPeers NewTracker \<lparr>Method = ''GET'', Body = DecodeError, QueryFileHash = ''abc''\<rparr>) =
     Json (JObj [(''peers'', JNull)])
   \<and> Json (JObj [(''peers'', JNull)]) \<noteq> Json (JObj [(''peers'', JArr [])])
   \<and> StatusCode (GetPeers NewTracker \<lparr>Method = ''GET'', Body = DecodeError, QueryFileHash = []\<rparr>) = 400"
  by (simp add: GetPeers_def NewTracker_def encode_PeersResponse_def StatusCode_def http_Error_def)

end
